theory Spec2Isabelle
  imports Complex_Main "HOL-Library.Log_Nat" "HOL-Library.Multiset"
begin

section \<open>Text: the string operations of the converter\<close>

text \<open>
  A Python \<open>str\<close> is modelled as a \<open>string\<close> whose characters are the code points
  below 256. On that range \<open>str.strip()\<close> and \<open>str.split()\<close> (both called without
  arguments in \<open>polygon_to_bbox.py\<close>) treat exactly the code points 9 to 13, 28 to 32,
  133 and 160 as whitespace.
\<close>

definition isspace :: "char \<Rightarrow> bool" where
  "isspace c =
     (let n = (of_char c :: nat)
      in (9 \<le> n \<and> n \<le> 13) \<or> (28 \<le> n \<and> n \<le> 32) \<or> n = 133 \<or> n = 160)"

definition strip :: "string \<Rightarrow> string" where
  "strip s = rev (dropWhile isspace (rev (dropWhile isspace s)))"

text \<open>
  \<open>str.split()\<close>: runs of whitespace separate the tokens, and no token is empty.
  The first argument is the token being read, reversed.
\<close>

fun split_aux :: "string \<Rightarrow> string \<Rightarrow> string list" where
  "split_aux cur [] = (if cur = [] then [] else [rev cur])"
| "split_aux cur (c # cs) =
     (if isspace c
      then (if cur = [] then split_aux [] cs else rev cur # split_aux [] cs)
      else split_aux (c # cur) cs)"

definition split :: "string \<Rightarrow> string list" where
  "split s = split_aux [] s"

section \<open>Python floats\<close>

text \<open>
  A Python \<open>float\<close> is an IEEE 754 binary64 value: a finite number (given here by
  its exact rational value, \<open>Fin 0\<close> being \<open>+0.0\<close>), the negative zero, an infinity,
  or a NaN. Python prints every NaN as \<open>nan\<close>, so one NaN is enough.
\<close>

datatype pyfloat = Fin rat | NegZero | PInf | NInf | NaN

definition ipow :: "rat \<Rightarrow> int \<Rightarrow> rat" where
  "ipow b k = (if 0 \<le> k then b ^ nat k else 1 / b ^ nat (- k))"

definition round_half_even :: "rat \<Rightarrow> int" where
  "round_half_even x =
     (let f = \<lfloor>x\<rfloor>; d = x - of_int f
      in if d < 1 / 2 then f
         else if 1 / 2 < d then f + 1
         else if even f then f else f + 1)"

text \<open>The binary exponent of a positive rational: \<open>2 ^ ilog2 a \<le> a < 2 ^ (ilog2 a + 1)\<close>.\<close>

definition ilog2 :: "rat \<Rightarrow> int" where
  "ilog2 a =
     (let (p, d) = quotient_of a; k = bitlen p - bitlen d
      in if ipow 2 k \<le> a then k else k - 1)"

text \<open>
  Rounding an exact result to binary64, to nearest with ties to even: 53 significant
  bits, the smallest unit \<open>2 ^ -1074\<close>, overflow to an infinity from \<open>2 ^ 1024\<close> on.
  A nonzero value that rounds to zero keeps its sign; an exact zero is \<open>+0.0\<close>.
\<close>

definition round_double :: "rat \<Rightarrow> pyfloat" where
  "round_double q =
     (if q = 0 then Fin 0
      else let a = \<bar>q\<bar>;
               u = max (ilog2 a - 52) (- 1074);
               n = round_half_even (a / ipow 2 u);
               r = of_int n * ipow 2 u
           in if ipow 2 1024 \<le> r then (if q < 0 then NInf else PInf)
              else if n = 0 then (if q < 0 then NegZero else Fin 0)
              else Fin (if q < 0 then - r else r))"

fun fval :: "pyfloat \<Rightarrow> rat" where
  "fval (Fin q) = q"
| "fval _ = 0"

fun float_neg :: "pyfloat \<Rightarrow> pyfloat" where
  "float_neg (Fin q) = (if q = 0 then NegZero else Fin (- q))"
| "float_neg NegZero = Fin 0"
| "float_neg PInf = NInf"
| "float_neg NInf = PInf"
| "float_neg NaN = NaN"

text \<open>\<open>a + b\<close> on floats.\<close>

fun float_add :: "pyfloat \<Rightarrow> pyfloat \<Rightarrow> pyfloat" where
  "float_add NaN _ = NaN"
| "float_add _ NaN = NaN"
| "float_add PInf NInf = NaN"
| "float_add NInf PInf = NaN"
| "float_add PInf _ = PInf"
| "float_add _ PInf = PInf"
| "float_add NInf _ = NInf"
| "float_add _ NInf = NInf"
| "float_add NegZero NegZero = NegZero"
| "float_add a b = round_double (fval a + fval b)"

text \<open>\<open>a - b\<close> on floats.\<close>

definition float_sub :: "pyfloat \<Rightarrow> pyfloat \<Rightarrow> pyfloat" where
  "float_sub a b = float_add a (float_neg b)"

text \<open>\<open>a / 2\<close> on floats: the integer 2 is converted to \<open>2.0\<close>, which is not zero.\<close>

fun float_half :: "pyfloat \<Rightarrow> pyfloat" where
  "float_half (Fin q) = round_double (q / 2)"
| "float_half a = a"

text \<open>\<open>a < b\<close> on floats: false whenever a NaN is involved; the two zeros are equal.\<close>

fun float_lt :: "pyfloat \<Rightarrow> pyfloat \<Rightarrow> bool" where
  "float_lt NaN _ = False"
| "float_lt _ NaN = False"
| "float_lt PInf _ = False"
| "float_lt _ NInf = False"
| "float_lt _ PInf = True"
| "float_lt NInf _ = True"
| "float_lt a b = (fval a < fval b)"

text \<open>\<open>a > b\<close> on floats.\<close>

definition float_gt :: "pyfloat \<Rightarrow> pyfloat \<Rightarrow> bool" where
  "float_gt a b = float_lt b a"

text \<open>\<open>a >= b\<close> on floats.\<close>

fun float_ge :: "pyfloat \<Rightarrow> pyfloat \<Rightarrow> bool" where
  "float_ge NaN _ = False"
| "float_ge _ NaN = False"
| "float_ge PInf _ = True"
| "float_ge _ NInf = True"
| "float_ge _ PInf = False"
| "float_ge NInf _ = False"
| "float_ge a b = (fval b \<le> fval a)"

subsection \<open>\<open>float(s)\<close> on a string\<close>

definition isdigit :: "char \<Rightarrow> bool" where
  "isdigit c = (48 \<le> (of_char c :: nat) \<and> (of_char c :: nat) \<le> 57)"

definition digits_val :: "string \<Rightarrow> int" where
  "digits_val ds = foldl (\<lambda>n c. 10 * n + ((of_char c :: int) - 48)) 0 ds"

definition tolower :: "char \<Rightarrow> char" where
  "tolower c =
     (let n = (of_char c :: nat) in if 65 \<le> n \<and> n \<le> 90 then char_of (n + 32) else c)"

text \<open>
  The whitespace that \<open>float\<close> strips from both ends of its argument: the code points 28
  to 31 are whitespace for \<open>str.split\<close> but not for \<open>float\<close>.
\<close>

definition float_isspace :: "char \<Rightarrow> bool" where
  "float_isspace c =
     (let n = (of_char c :: nat) in (9 \<le> n \<and> n \<le> 13) \<or> n = 32 \<or> n = 133 \<or> n = 160)"

definition float_strip :: "string \<Rightarrow> string" where
  "float_strip s = rev (dropWhile float_isspace (rev (dropWhile float_isspace s)))"

text \<open>
  An underscore is accepted only between two digits. The first argument is the
  previous character.
\<close>

fun underscores_ok :: "char \<Rightarrow> string \<Rightarrow> bool" where
  "underscores_ok prev [] = (prev \<noteq> CHR ''_'')"
| "underscores_ok prev (c # cs) =
     ((if c = CHR ''_'' then isdigit prev else (prev = CHR ''_'' \<longrightarrow> isdigit c))
      \<and> underscores_ok c cs)"

definition split_sign :: "string \<Rightarrow> bool \<times> string" where
  "split_sign s =
     (case s of
        [] \<Rightarrow> (False, [])
      | c # cs \<Rightarrow>
          if c = CHR ''-'' then (True, cs)
          else if c = CHR ''+'' then (False, cs)
          else (False, s))"

definition parse_exponent :: "string \<Rightarrow> int option" where
  "parse_exponent s =
     (case s of
        [] \<Rightarrow> Some 0
      | c # cs \<Rightarrow>
          if c = CHR ''e'' \<or> c = CHR ''E''
          then (let (neg, ds) = split_sign cs
                in if ds \<noteq> [] \<and> list_all isdigit ds
                   then Some (if neg then - digits_val ds else digits_val ds)
                   else None)
          else None)"

text \<open>
  An unsigned decimal number: digits, optionally a point and digits, optionally an
  exponent, with at least one digit before the exponent. The result is its exact value.
\<close>

definition parse_decimal :: "string \<Rightarrow> rat option" where
  "parse_decimal s =
     (let ip = takeWhile isdigit s;
          r1 = dropWhile isdigit s;
          (fp, r2) =
            (case r1 of
               [] \<Rightarrow> ([], [])
             | c # cs \<Rightarrow>
                 if c = CHR ''.'' then (takeWhile isdigit cs, dropWhile isdigit cs)
                 else ([], r1))
      in if ip = [] \<and> fp = [] then None
         else case parse_exponent r2 of
                None \<Rightarrow> None
              | Some e \<Rightarrow> Some (of_int (digits_val (ip @ fp)) * ipow 10 (e - int (length fp))))"

text \<open>
  \<open>float(s)\<close>: \<open>None\<close> stands for the \<open>ValueError\<close> that Python raises. The accepted
  strings are a signed decimal number, \<open>inf\<close>, \<open>infinity\<close> and \<open>nan\<close> (in any case,
  with an optional sign); the decimal value is rounded correctly.
\<close>

definition float_of_str :: "string \<Rightarrow> pyfloat option" where
  "float_of_str s0 =
     (if \<not> underscores_ok (CHR 0x00) s0 then None
      else let s = float_strip (filter (\<lambda>c. c \<noteq> CHR ''_'') s0);
               (neg, r) = split_sign s;
               l = map tolower r
           in if l = ''inf'' \<or> l = ''infinity'' then Some (if neg then NInf else PInf)
              else if l = ''nan'' then Some NaN
              else case parse_decimal r of
                     None \<Rightarrow> None
                   | Some q \<Rightarrow>
                       Some (if neg then float_neg (round_double q) else round_double q))"

subsection \<open>The format specifier \<open>.6f\<close>\<close>

definition digit_char :: "int \<Rightarrow> char" where
  "digit_char d = char_of (48 + d)"

text \<open>The decimal digits of a non-negative integer.\<close>

function str_int :: "int \<Rightarrow> string" where
  "str_int n = (if n < 10 then [digit_char n] else str_int (n div 10) @ [digit_char (n mod 10)])"
  by pat_completeness auto
termination
  by (relation "measure nat") auto

text \<open>
  A non-negative value in fixed notation with six digits after the point, rounded
  correctly (ties to even) from the exact value of the float.
\<close>

definition fixed6 :: "rat \<Rightarrow> string" where
  "fixed6 a =
     (let n = round_half_even (a * 1000000)
      in str_int (n div 1000000) @ ''.''
         @ map (\<lambda>i. digit_char ((n div 10 ^ i) mod 10)) [5, 4, 3, 2, 1, 0 :: nat])"

fun fmt6 :: "pyfloat \<Rightarrow> string" where
  "fmt6 (Fin q) = (if q < 0 then ''-'' @ fixed6 (- q) else fixed6 q)"
| "fmt6 NegZero = ''-0.000000''"
| "fmt6 PInf = ''inf''"
| "fmt6 NInf = ''-inf''"
| "fmt6 NaN = ''nan''"

section \<open>The reducer: \<open>polygon_to_bbox\<close>\<close>

text \<open>Every exception raised inside \<open>polygon_to_bbox\<close> is a \<open>ValueError\<close>.\<close>

datatype value_error =
    TooFewPoints           \<comment> \<open>\<open>ValueError("Polygon must have at least 3 points")\<close>\<close>
  | CouldNotConvert string \<comment> \<open>\<open>float\<close> rejected this token\<close>
  | EmptySequence          \<comment> \<open>\<open>min\<close> or \<open>max\<close> of an empty list\<close>

text \<open>\<open>range(start, stop, 2)\<close>.\<close>

definition range2 :: "nat \<Rightarrow> nat \<Rightarrow> nat list" where
  "range2 start stop = map (\<lambda>k. start + 2 * k) [0..<(stop + 1 - start) div 2]"

text \<open>
  The list comprehension \<open>[float(t) for t in ts]\<close>: the conversions run in order and
  the first failure raises.
\<close>

fun floats :: "string list \<Rightarrow> value_error + pyfloat list" where
  "floats [] = Inr []"
| "floats (t # ts) =
     (case float_of_str t of
        None \<Rightarrow> Inl (CouldNotConvert t)
      | Some v \<Rightarrow> (case floats ts of Inl e \<Rightarrow> Inl e | Inr vs \<Rightarrow> Inr (v # vs)))"

text \<open>
  The builtins \<open>min\<close> and \<open>max\<close> on a list: the first item is the candidate, and a
  later item replaces it when it compares \<open><\<close> (for \<open>min\<close>) or \<open>>\<close> (for \<open>max\<close>) to it.
\<close>

fun py_min :: "pyfloat list \<Rightarrow> value_error + pyfloat" where
  "py_min [] = Inl EmptySequence"
| "py_min (x # xs) = Inr (foldl (\<lambda>m v. if float_lt v m then v else m) x xs)"

fun py_max :: "pyfloat list \<Rightarrow> value_error + pyfloat" where
  "py_max [] = Inl EmptySequence"
| "py_max (x # xs) = Inr (foldl (\<lambda>m v. if float_gt v m then v else m) x xs)"

type_synonym bbox = "pyfloat \<times> pyfloat \<times> pyfloat \<times> pyfloat"

text \<open>Sequencing: an exception raised by a statement ends the function.\<close>

definition bind_err :: "'e + 'a \<Rightarrow> ('a \<Rightarrow> 'e + 'b) \<Rightarrow> 'e + 'b" where
  "bind_err r f = (case r of Inl e \<Rightarrow> Inl e | Inr v \<Rightarrow> f v)"

definition polygon_to_bbox :: "string list \<Rightarrow> value_error + bbox" where
  "polygon_to_bbox polygon_coords =
     (if length polygon_coords < 6 then Inl TooFewPoints
      else
        bind_err (floats (map (\<lambda>i. polygon_coords ! i) (range2 0 (length polygon_coords))))
          (\<lambda>x_coords.
        bind_err (floats (map (\<lambda>i. polygon_coords ! i) (range2 1 (length polygon_coords))))
          (\<lambda>y_coords.
        bind_err (py_min x_coords) (\<lambda>min_x.
        bind_err (py_max x_coords) (\<lambda>max_x.
        bind_err (py_min y_coords) (\<lambda>min_y.
        bind_err (py_max y_coords) (\<lambda>max_y.
          Inr (float_half (float_add min_x max_x),
               float_half (float_add min_y max_y),
               float_sub max_x min_x,
               float_sub max_y min_y))))))))"

section \<open>The transcoder: \<open>process_line\<close>\<close>

text \<open>The exceptions other than those of the reducer.\<close>

datatype py_exception =
    FileNotFoundError string
  | IsADirectoryError string
  | PermissionError string
  | OtherException string

text \<open>What the program prints, one value per call of \<open>print\<close>.\<close>

datatype message =
    SkippingInvalidLine string      \<comment> \<open>\<open>Warning: Skipping invalid line (too few coordinates): ...\<close>\<close>
  | ErrorProcessingLine value_error \<comment> \<open>\<open>Warning: Error processing line: ...\<close>\<close>
  | Processing nat string           \<comment> \<open>\<open>Processing n lines from f...\<close>\<close>
  | Statistics nat nat nat string   \<comment> \<open>the six lines printed after the conversion\<close>
  | ErrorExit py_exception          \<comment> \<open>\<open>Error: ...\<close> of \<open>main\<close>\<close>

text \<open>The result is what was printed and what was returned (\<open>None\<close> as in Python).\<close>

definition process_line :: "string \<Rightarrow> message list \<times> string option" where
  "process_line line =
     (let parts = split (strip line)
      in if length parts < 7 then ([SkippingInvalidLine (strip line)], None)
         else
           let class_id = hd parts; polygon_coords = tl parts
           in case polygon_to_bbox polygon_coords of
                Inr (center_x, center_y, width, height) \<Rightarrow>
                  ([], Some (class_id @ '' '' @ fmt6 center_x @ '' '' @ fmt6 center_y
                             @ '' '' @ fmt6 width @ '' '' @ fmt6 height))
              | Inl e \<Rightarrow> ([ErrorProcessingLine e], None))"

section \<open>Files: \<open>convert_file\<close> and \<open>main\<close>\<close>

text \<open>
  A file system maps a path to what is there: a text file, given by the lines that
  \<open>readlines\<close> returns (each with its line end), or a directory. \<open>writable\<close> says
  whether the operating system lets a path be opened for writing (its directory
  exists, the permissions allow it); a refusal is modelled as \<open>PermissionError\<close>.
  Decoding errors are not modelled.
\<close>

datatype node = File "string list" | Dir

record filesystem =
  entries :: "string \<Rightarrow> node option"
  writable :: "string \<Rightarrow> bool"

text \<open>\<open>open(path, 'r')\<close> followed by \<open>readlines\<close>.\<close>

definition read_lines :: "filesystem \<Rightarrow> string \<Rightarrow> py_exception + string list" where
  "read_lines fs path =
     (case entries fs path of
        None \<Rightarrow> Inl (FileNotFoundError path)
      | Some Dir \<Rightarrow> Inl (IsADirectoryError path)
      | Some (File ls) \<Rightarrow> Inr ls)"

text \<open>\<open>open(path, 'w')\<close> followed by one \<open>write(line + '\n')\<close> for each line.\<close>

definition write_lines :: "filesystem \<Rightarrow> string \<Rightarrow> string list \<Rightarrow> py_exception + filesystem" where
  "write_lines fs path ls =
     (if entries fs path = Some Dir then Inl (IsADirectoryError path)
      else if \<not> writable fs path then Inl (PermissionError path)
      else Inr (fs\<lparr>entries := (entries fs)(path \<mapsto> File (map (\<lambda>l. l @ [CHR 0x0A]) ls))\<rparr>))"

text \<open>
  The loop of \<open>convert_file\<close> over the lines read. The state is the list
  \<open>converted_lines\<close>, the counter \<open>skipped_lines\<close> and what has been printed.
  \<open>if converted_line\<close> is false for \<open>None\<close> and for the empty string.
\<close>

fun convert_loop ::
  "string list \<Rightarrow> string list \<times> nat \<times> message list \<Rightarrow> string list \<times> nat \<times> message list"
where
  "convert_loop [] st = st"
| "convert_loop (l # ls) (converted_lines, skipped_lines, out) =
     (let line = strip l
      in if line = [] then convert_loop ls (converted_lines, skipped_lines, out)
         else
           let (printed, converted_line) = process_line line
           in if converted_line \<noteq> None \<and> converted_line \<noteq> Some []
              then convert_loop ls (converted_lines @ [the converted_line], skipped_lines,
                                    out @ printed)
              else convert_loop ls (converted_lines, skipped_lines + 1, out @ printed))"

text \<open>
  The outcome of a call that prints and writes files: what it printed, the file system
  afterwards, and the exception it raised, if any.
\<close>

type_synonym outcome = "message list \<times> filesystem \<times> py_exception option"

definition convert_file :: "filesystem \<Rightarrow> string \<Rightarrow> string \<Rightarrow> outcome" where
  "convert_file fs input_file output_file =
     (if entries fs input_file = None then ([], fs, Some (FileNotFoundError input_file))
      else
        case read_lines fs input_file of
          Inl e \<Rightarrow> ([], fs, Some e)
        | Inr lines \<Rightarrow>
            let (converted_lines, skipped_lines, out) =
                  convert_loop lines ([], 0, [Processing (length lines) input_file])
            in case write_lines fs output_file converted_lines of
                 Inl e \<Rightarrow> (out, fs, Some e)
               | Inr fs' \<Rightarrow>
                   (out @ [Statistics (length lines) (length converted_lines)
                             skipped_lines output_file],
                    fs', None))"

text \<open>
  The parsed command line. \<open>main\<close> is modelled from \<open>parser.parse_args()\<close> on. Two
  parts that depend on library code are parameters: \<open>batch_convert\<close> (which lists a
  directory) and \<open>with_suffix\<close>, standing for
  \<open>str(Path(input_file).with_suffix('.bbox.txt'))\<close>, which can raise. The result is the
  exit status (\<open>sys.exit(1)\<close> after an exception, 0 otherwise), the file system and
  what was printed.
\<close>

record args =
  arg_input :: string
  arg_output :: "string option"
  arg_batch :: bool

definition main ::
  "(filesystem \<Rightarrow> string \<Rightarrow> string option \<Rightarrow> outcome) \<Rightarrow>
   (string \<Rightarrow> py_exception + string) \<Rightarrow>
   filesystem \<Rightarrow> args \<Rightarrow> nat \<times> filesystem \<times> message list"
where
  "main batch_convert with_suffix fs a =
     (let (out, fs', raised) =
        (if arg_batch a then batch_convert fs (arg_input a) (arg_output a)
         else
           let input_file = arg_input a
           in case arg_output a of
                Some output_file \<Rightarrow> convert_file fs input_file output_file
              | None \<Rightarrow>
                  (case with_suffix input_file of
                     Inl e \<Rightarrow> ([], fs, Some e)
                   | Inr output_file \<Rightarrow> convert_file fs input_file output_file))
      in case raised of
           Some e \<Rightarrow> (1, fs', out @ [ErrorExit e])
         | None \<Rightarrow> (0, fs', out))"

text \<open>
  The module run as a script with arguments: \<open>main()\<close> is called under the first
  \<open>if __name__ == "__main__"\<close>, and, when it returns, once more under the second one
  (whose other branch needs an empty command line).
\<close>

definition script ::
  "(filesystem \<Rightarrow> string \<Rightarrow> string option \<Rightarrow> outcome) \<Rightarrow>
   (string \<Rightarrow> py_exception + string) \<Rightarrow>
   filesystem \<Rightarrow> args \<Rightarrow> nat \<times> filesystem \<times> message list"
where
  "script batch_convert with_suffix fs a =
     (let (status, fs', out) = main batch_convert with_suffix fs a
      in if status \<noteq> 0 then (status, fs', out)
         else let (status2, fs2, out2) = main batch_convert with_suffix fs' a
              in (status2, fs2, out @ out2))"

section \<open>Notions used to state the properties\<close>

text \<open>A float that is a number: neither an infinity nor a NaN.\<close>

fun is_finite :: "pyfloat \<Rightarrow> bool" where
  "is_finite (Fin q) = True"
| "is_finite NegZero = True"
| "is_finite _ = False"

text \<open>
  Tokens: one that \<open>float\<close> accepts, one that denotes a number (accepted, and not a
  NaN), one that denotes a finite number, and one that is not the negative zero.
\<close>

definition accepted :: "string \<Rightarrow> bool" where
  "accepted t = (float_of_str t \<noteq> None)"

definition is_number :: "string \<Rightarrow> bool" where
  "is_number t = (accepted t \<and> float_of_str t \<noteq> Some NaN)"

definition is_finite_number :: "string \<Rightarrow> bool" where
  "is_finite_number t = (case float_of_str t of None \<Rightarrow> False | Some v \<Rightarrow> is_finite v)"

definition not_negative_zero :: "string \<Rightarrow> bool" where
  "not_negative_zero t = (float_of_str t \<noteq> Some NegZero)"

text \<open>
  The values of the tokens at the even (x) and at the odd (y) positions of a flattened
  coordinate list, in the words of the specification.
\<close>

definition x_values :: "string list \<Rightarrow> pyfloat list" where
  "x_values cs = map (\<lambda>i. the (float_of_str (cs ! i))) (filter even [0..<length cs])"

definition y_values :: "string list \<Rightarrow> pyfloat list" where
  "y_values cs = map (\<lambda>i. the (float_of_str (cs ! i))) (filter odd [0..<length cs])"

text \<open>A minimum (maximum) of a list: one of its items, and every item is \<open>>=\<close> (\<open><=\<close>) it.\<close>

definition is_minimum :: "pyfloat \<Rightarrow> pyfloat list \<Rightarrow> bool" where
  "is_minimum m vs = (m \<in> set vs \<and> list_all (\<lambda>v. float_ge v m) vs)"

definition is_maximum :: "pyfloat \<Rightarrow> pyfloat list \<Rightarrow> bool" where
  "is_maximum m vs = (m \<in> set vs \<and> list_all (\<lambda>v. float_ge m v) vs)"

text \<open>The flattened coordinate list of a list of vertices.\<close>

definition flatten :: "(string \<times> string) list \<Rightarrow> string list" where
  "flatten ps = concat (map (\<lambda>(x, y). [x, y]) ps)"

text \<open>Two floats that are the same but for the sign of a zero.\<close>

definition same_number :: "pyfloat \<Rightarrow> pyfloat \<Rightarrow> bool" where
  "same_number a b = (a = b \<or> (a = Fin 0 \<or> a = NegZero) \<and> (b = Fin 0 \<or> b = NegZero))"

fun same_bbox :: "bbox \<Rightarrow> bbox \<Rightarrow> bool" where
  "same_bbox (cx, cy, w, h) (cx', cy', w', h') =
     (same_number cx cx' \<and> same_number cy cy' \<and> same_number w w' \<and> same_number h h')"

section \<open>The rounding is to a nearest value\<close>

lemma ipow_pos: "0 < b \<Longrightarrow> 0 < ipow b k"
  by (simp add: ipow_def)

lemma ipow_powi: "b \<noteq> 0 \<Longrightarrow> ipow b k = b powi k"
  by (simp add: ipow_def power_int_def inverse_eq_divide power_one_over)

lemma ipow_diff: "ipow 2 (int m - int n) = 2 ^ m / 2 ^ n"
  by (simp add: ipow_powi power_int_diff)

lemma ipow_Suc: "ipow 2 (k + 1) = 2 * ipow 2 k"
  by (simp add: ipow_powi power_int_add)

lemma ilog2_bounds:
  assumes "0 < a"
  shows "ipow 2 (ilog2 a) \<le> a \<and> a < ipow 2 (ilog2 a + 1)"
proof -
  obtain p d where q: "quotient_of a = (p, d)" by (cases "quotient_of a")
  from quotient_of_denom_pos [OF q] have d: "0 < d" .
  from quotient_of_div [OF q] have a: "a = of_int p / of_int d" .
  from assms a d have p: "0 < p" by (simp add: zero_less_divide_iff)
  have pos_bitlen: "1 \<le> bitlen x" if "0 < x" for x
  proof (rule ccontr)
    assume "\<not> 1 \<le> bitlen x"
    then have "nat (bitlen x) = 0" by simp
    with bitlen_bounds [OF that] have "x < 1" by simp
    with that show False by simp
  qed
  define m where "m = nat (bitlen p - 1)"
  define n where "n = nat (bitlen d - 1)"
  have blp: "bitlen p = int m + 1" using pos_bitlen [OF p] by (simp add: m_def)
  have bld: "bitlen d = int n + 1" using pos_bitlen [OF d] by (simp add: n_def)
  from bitlen_bounds [OF p] have bp: "2 ^ m \<le> p" "p < 2 ^ Suc m"
    by (simp_all add: blp nat_add_distrib)
  from bitlen_bounds [OF d] have bd: "2 ^ n \<le> d" "d < 2 ^ Suc n"
    by (simp_all add: bld nat_add_distrib)
  have k: "bitlen p - bitlen d = int m - int n" by (simp add: blp bld)
  have rp: "(2::rat) ^ m \<le> of_int p" "of_int p < (2::rat) ^ Suc m"
    using bp by (metis of_int_le_iff of_int_numeral of_int_power, metis of_int_less_iff of_int_numeral of_int_power)
  have rd: "(2::rat) ^ n \<le> of_int d" "of_int d < (2::rat) ^ Suc n"
    using bd by (metis of_int_le_iff of_int_numeral of_int_power, metis of_int_less_iff of_int_numeral of_int_power)
  have dpos: "(0::rat) < of_int d" using d by simp
  have upper: "a < 2 * (2 ^ m / 2 ^ n)"
  proof -
    have "of_int p * (2::rat) ^ n < 2 ^ Suc m * of_int d"
      using rp(2) rd(1) p by (intro mult_less_le_imp_less) auto
    then show ?thesis using dpos by (simp add: a field_simps)
  qed
  have lower: "2 ^ m / 2 ^ n < 2 * a"
  proof -
    have "(2::rat) ^ m * of_int d < of_int p * 2 ^ Suc n"
      using rp(1) rd(2) dpos by (intro mult_le_less_imp_less) auto
    then show ?thesis using dpos by (simp add: a field_simps)
  qed
  show ?thesis
  proof (cases "ipow 2 (int m - int n) \<le> a")
    case True
    then have "ilog2 a = int m - int n" by (simp add: ilog2_def q k)
    with True upper show ?thesis by (simp add: ipow_Suc ipow_diff)
  next
    case False
    then have il: "ilog2 a = int m - int n - 1" by (simp add: ilog2_def q k)
    have "ipow 2 (int m - int n - 1 + 1) = 2 * ipow 2 (int m - int n - 1)" by (rule ipow_Suc)
    then have half: "ipow 2 (int m - int n - 1) = (2 ^ m / 2 ^ n) / 2" by (simp add: ipow_diff)
    from False lower show ?thesis by (simp add: il half ipow_diff)
  qed
qed

text \<open>
  The finite result of a rounding is within half a unit of the exact value, the unit
  being that of the binade of the exact value.
\<close>

lemma round_half_even_nearest: "\<bar>of_int (round_half_even x) - x\<bar> \<le> 1 / 2"
proof -
  have "of_int \<lfloor>x\<rfloor> \<le> x" "x < of_int \<lfloor>x\<rfloor> + 1" by linarith+
  then show ?thesis by (auto simp: round_half_even_def Let_def)
qed

lemma round_double_nearest:
  assumes "round_double q = Fin r"
  shows "\<bar>r - q\<bar> \<le> ipow 2 (max (ilog2 \<bar>q\<bar> - 52) (- 1074)) / 2"
proof (cases "q = 0")
  case True
  with assms show ?thesis by (simp add: round_double_def ipow_pos less_imp_le)
next
  case False
  define u where "u = ipow 2 (max (ilog2 \<bar>q\<bar> - 52) (- 1074))"
  define n where "n = round_half_even (\<bar>q\<bar> / u)"
  have u: "0 < u" by (simp add: u_def ipow_pos)
  from round_half_even_nearest [of "\<bar>q\<bar> / u"] have "\<bar>of_int n - \<bar>q\<bar> / u\<bar> \<le> 1 / 2"
    by (simp add: n_def)
  then have "\<bar>of_int n - \<bar>q\<bar> / u\<bar> * u \<le> 1 / 2 * u"
    using u by (intro mult_right_mono) auto
  then have "\<bar>(of_int n - \<bar>q\<bar> / u) * u\<bar> \<le> u / 2"
    using u by (simp add: abs_mult)
  moreover have "(of_int n - \<bar>q\<bar> / u) * u = of_int n * u - \<bar>q\<bar>"
    using u by (simp add: left_diff_distrib)
  ultimately have err: "\<bar>of_int n * u - \<bar>q\<bar>\<bar> \<le> u / 2" by simp
  from assms False have "r = (if q < 0 then - (of_int n * u) else of_int n * u) \<or> r = 0 \<and> n = 0"
    by (auto simp: round_double_def Let_def u_def n_def split: if_splits)
  then show ?thesis
  proof
    assume r: "r = (if q < 0 then - (of_int n * u) else of_int n * u)"
    show ?thesis
    proof (cases "q < 0")
      case True
      then have "r - q = - (of_int n * u - \<bar>q\<bar>)" by (simp add: r)
      then have "\<bar>r - q\<bar> = \<bar>of_int n * u - \<bar>q\<bar>\<bar>" by (simp only: abs_minus_cancel)
      with err show ?thesis by (simp only: u_def)
    next
      case False
      then have "r - q = of_int n * u - \<bar>q\<bar>" by (simp add: r)
      with err show ?thesis by (simp only: u_def)
    qed
  next
    assume "r = 0 \<and> n = 0"
    then have "\<bar>r - q\<bar> = \<bar>of_int n * u - \<bar>q\<bar>\<bar>" by simp
    with err show ?thesis by (simp only: u_def)
  qed
qed

section \<open>Indices and conversions\<close>

lemma range2_0_Suc: "range2 0 (Suc n) = (if even n then range2 0 n @ [n] else range2 0 n)"
  by (auto simp: range2_def elim!: evenE oddE)

lemma range2_1_Suc: "range2 (Suc 0) (Suc n) = (if odd n then range2 (Suc 0) n @ [n] else range2 (Suc 0) n)"
  by (auto simp: range2_def elim!: evenE oddE)

lemma range2_0_filter: "range2 0 n = filter even [0..<n]"
proof (induction n)
  case 0
  show ?case by (simp add: range2_def)
next
  case (Suc n)
  then show ?case by (simp add: range2_0_Suc)
qed

lemma range2_1_filter: "range2 (Suc 0) n = filter odd [0..<n]"
proof (induction n)
  case 0
  show ?case by (simp add: range2_def)
next
  case (Suc n)
  then show ?case by (simp add: range2_1_Suc)
qed

lemma floats_ok: "\<forall>t\<in>set ts. float_of_str t \<noteq> None \<Longrightarrow> floats ts = Inr (map (\<lambda>t. the (float_of_str t)) ts)"
  by (induction ts) auto

lemma floats_fail:
  "\<exists>t\<in>set ts. float_of_str t = None \<Longrightarrow>
   \<exists>t\<in>set ts. float_of_str t = None \<and> floats ts = Inl (CouldNotConvert t)"
proof (induction ts)
  case Nil
  then show ?case by simp
next
  case (Cons a ts)
  show ?case
  proof (cases "float_of_str a")
    case None
    then show ?thesis by auto
  next
    case (Some v)
    with Cons.prems have "\<exists>t\<in>set ts. float_of_str t = None" by auto
    from Cons.IH [OF this] obtain t where "t \<in> set ts" "float_of_str t = None"
      "floats ts = Inl (CouldNotConvert t)" by blast
    with Some show ?thesis by auto
  qed
qed

lemma set_evens_odds:
  "set (map (\<lambda>i. cs ! i) (range2 0 (length cs))) \<union> set (map (\<lambda>i. cs ! i) (range2 (Suc 0) (length cs))) = set cs"
proof -
  have "set (range2 0 (length cs)) \<union> set (range2 (Suc 0) (length cs)) = {i. i < length cs}"
    by (auto simp: range2_0_filter range2_1_filter)
  then have "set (map (\<lambda>i. cs ! i) (range2 0 (length cs))) \<union> set (map (\<lambda>i. cs ! i) (range2 (Suc 0) (length cs)))
        = (\<lambda>i. cs ! i) ` {i. i < length cs}"
    by (simp add: image_Un [symmetric])
  also have "\<dots> = set cs"
    by (auto simp: set_conv_nth)
  finally show ?thesis .
qed

section \<open>The order of the floats, \<open>min\<close> and \<open>max\<close>\<close>

lemma float_lt_irrefl: "\<not> float_lt a a"
  by (cases a) auto

lemma float_lt_trans: "float_lt a b \<Longrightarrow> float_lt b c \<Longrightarrow> float_lt a c"
  by (cases a; cases b; cases c) auto

lemma float_ge_iff: "a \<noteq> NaN \<Longrightarrow> b \<noteq> NaN \<Longrightarrow> float_ge a b = (\<not> float_lt a b)"
  by (cases a; cases b) auto

lemma float_lt_same: "a \<noteq> NaN \<Longrightarrow> b \<noteq> NaN \<Longrightarrow> \<not> float_lt a b \<Longrightarrow> \<not> float_lt b a \<Longrightarrow> same_number a b"
  by (cases a; cases b) (auto simp: same_number_def)

lemma select_spec:
  assumes tr: "\<And>a b c. R a b \<Longrightarrow> R b c \<Longrightarrow> R a c" and irr: "\<And>a. \<not> R a a"
  shows "foldl (\<lambda>m v. if R v m then v else m) x xs \<in> set (x # xs) \<and>
         (\<forall>v\<in>set (x # xs). \<not> R v (foldl (\<lambda>m v. if R v m then v else m) x xs)) \<and>
         (foldl (\<lambda>m v. if R v m then v else m) x xs = x \<or> R (foldl (\<lambda>m v. if R v m then v else m) x xs) x)"
proof (induction xs arbitrary: x)
  case Nil
  show ?case by (simp add: irr)
next
  case (Cons y ys)
  define x' where "x' = (if R y x then y else x)"
  define r where "r = foldl (\<lambda>m v. if R v m then v else m) x' ys"
  have eq: "foldl (\<lambda>m v. if R v m then v else m) x (y # ys) = r"
    by (simp add: r_def x'_def)
  from Cons.IH [of x'] have mem: "r \<in> set (x' # ys)"
    and low: "\<forall>v\<in>set (x' # ys). \<not> R v r"
    and le: "r = x' \<or> R r x'" unfolding r_def by blast+
  have x'_cases: "x' = y \<and> R y x \<or> x' = x \<and> \<not> R y x" by (simp add: x'_def)
  have 1: "r \<in> set (x # y # ys)" using mem x'_cases by auto
  have le_x: "r = x \<or> R r x" using le x'_cases tr by blast
  have nx: "\<not> R x r" using le_x tr irr by blast
  have ny: "\<not> R y r" using x'_cases low le tr by auto
  have 2: "\<forall>v\<in>set (x # y # ys). \<not> R v r" using low nx ny by auto
  show ?case unfolding eq using 1 2 le_x by blast
qed

lemma py_min_spec:
  "py_min (x # xs) = Inr m \<Longrightarrow> m \<in> set (x # xs) \<and> (\<forall>v\<in>set (x # xs). \<not> float_lt v m)"
  using select_spec [of float_lt x xs, OF float_lt_trans float_lt_irrefl] by auto

lemma py_max_spec:
  "py_max (x # xs) = Inr m \<Longrightarrow> m \<in> set (x # xs) \<and> (\<forall>v\<in>set (x # xs). \<not> float_lt m v)"
  using select_spec [of "\<lambda>a b. float_lt b a" x xs] float_lt_trans float_lt_irrefl
  by (auto simp: float_gt_def)

section \<open>What the reducer and the transcoder return\<close>

lemma floats_evens:
  assumes "\<forall>t\<in>set cs. float_of_str t \<noteq> None"
  shows "floats (map (\<lambda>i. cs ! i) (range2 0 (length cs))) = Inr (x_values cs)"
proof -
  have "\<forall>t\<in>set (map (\<lambda>i. cs ! i) (range2 0 (length cs))). float_of_str t \<noteq> None"
    using assms set_evens_odds [of cs] by blast
  from floats_ok [OF this] show ?thesis
    by (simp add: x_values_def range2_0_filter comp_def)
qed

lemma floats_odds:
  assumes "\<forall>t\<in>set cs. float_of_str t \<noteq> None"
  shows "floats (map (\<lambda>i. cs ! i) (range2 (Suc 0) (length cs))) = Inr (y_values cs)"
proof -
  have "\<forall>t\<in>set (map (\<lambda>i. cs ! i) (range2 (Suc 0) (length cs))). float_of_str t \<noteq> None"
    using assms set_evens_odds [of cs] by blast
  from floats_ok [OF this] show ?thesis
    by (simp add: y_values_def range2_1_filter comp_def)
qed

lemma x_values_Cons: "2 \<le> length cs \<Longrightarrow> \<exists>v vs. x_values cs = v # vs"
proof -
  assume "2 \<le> length cs"
  then have "0 \<in> set (filter even [0..<length cs])" by auto
  then have "x_values cs \<noteq> []" unfolding x_values_def by (metis empty_iff list.set(1) map_is_Nil_conv)
  then show ?thesis by (cases "x_values cs") auto
qed

lemma y_values_Cons: "2 \<le> length cs \<Longrightarrow> \<exists>v vs. y_values cs = v # vs"
proof -
  assume "2 \<le> length cs"
  then have "1 \<in> set (filter odd [0..<length cs])" by auto
  then have "y_values cs \<noteq> []" unfolding y_values_def by (metis empty_iff list.set(1) map_is_Nil_conv)
  then show ?thesis by (cases "y_values cs") auto
qed

lemma py_min_Inr: "vs \<noteq> [] \<Longrightarrow> \<exists>m. py_min vs = Inr m"
  by (cases vs) auto

lemma py_max_Inr: "vs \<noteq> [] \<Longrightarrow> \<exists>m. py_max vs = Inr m"
  by (cases vs) auto

lemma polygon_to_bbox_values:
  assumes len: "6 \<le> length cs" and ok: "\<forall>t\<in>set cs. float_of_str t \<noteq> None"
  shows "\<exists>min_x max_x min_y max_y.
           py_min (x_values cs) = Inr min_x \<and> py_max (x_values cs) = Inr max_x \<and>
           py_min (y_values cs) = Inr min_y \<and> py_max (y_values cs) = Inr max_y \<and>
           polygon_to_bbox cs =
             Inr (float_half (float_add min_x max_x), float_half (float_add min_y max_y),
                  float_sub max_x min_x, float_sub max_y min_y)"
proof -
  from len have l2: "2 \<le> length cs" by simp
  from x_values_Cons [OF l2] have "x_values cs \<noteq> []" by auto
  from py_min_Inr [OF this] py_max_Inr [OF this]
  obtain min_x max_x where x: "py_min (x_values cs) = Inr min_x" "py_max (x_values cs) = Inr max_x"
    by blast
  from y_values_Cons [OF l2] have "y_values cs \<noteq> []" by auto
  from py_min_Inr [OF this] py_max_Inr [OF this]
  obtain min_y max_y where y: "py_min (y_values cs) = Inr min_y" "py_max (y_values cs) = Inr max_y"
    by blast
  have "polygon_to_bbox cs =
             Inr (float_half (float_add min_x max_x), float_half (float_add min_y max_y),
                  float_sub max_x min_x, float_sub max_y min_y)"
    using len by (simp add: polygon_to_bbox_def floats_evens [OF ok] floats_odds [OF ok] bind_err_def x y)
  with x y show ?thesis by blast
qed

lemma polygon_to_bbox_fail:
  assumes len: "6 \<le> length cs" and bad: "\<exists>t\<in>set cs. float_of_str t = None"
  shows "\<exists>t\<in>set cs. float_of_str t = None \<and> polygon_to_bbox cs = Inl (CouldNotConvert t)"
proof (cases "\<exists>t\<in>set (map (\<lambda>i. cs ! i) (range2 0 (length cs))). float_of_str t = None")
  case True
  from floats_fail [OF this] obtain t where t: "t \<in> set (map (\<lambda>i. cs ! i) (range2 0 (length cs)))"
    "float_of_str t = None" "floats (map (\<lambda>i. cs ! i) (range2 0 (length cs))) = Inl (CouldNotConvert t)"
    by blast
  from t(1) have "t \<in> set cs" using set_evens_odds [of cs] by blast
  moreover have "polygon_to_bbox cs = Inl (CouldNotConvert t)"
    using len t(3) by (simp add: polygon_to_bbox_def bind_err_def)
  ultimately show ?thesis using t(2) by blast
next
  case False
  then have ev: "\<forall>t\<in>set (map (\<lambda>i. cs ! i) (range2 0 (length cs))). float_of_str t \<noteq> None" by auto
  with bad have "\<exists>t\<in>set (map (\<lambda>i. cs ! i) (range2 (Suc 0) (length cs))). float_of_str t = None"
    using set_evens_odds [of cs] by blast
  from floats_fail [OF this] obtain t where t: "t \<in> set (map (\<lambda>i. cs ! i) (range2 (Suc 0) (length cs)))"
    "float_of_str t = None" "floats (map (\<lambda>i. cs ! i) (range2 (Suc 0) (length cs))) = Inl (CouldNotConvert t)"
    by blast
  from t(1) have "t \<in> set cs" using set_evens_odds [of cs] by blast
  moreover have "polygon_to_bbox cs = Inl (CouldNotConvert t)"
    using len t(3) floats_ok [OF ev] by (simp add: polygon_to_bbox_def bind_err_def)
  ultimately show ?thesis using t(2) by blast
qed

lemma process_line_Inl:
  assumes "split (strip line) = cid # cs" "polygon_to_bbox cs = Inl e" "6 \<le> length cs"
  shows "process_line line = ([ErrorProcessingLine e], None)"
  using assms by (simp add: process_line_def Let_def)

lemma process_line_Inr:
  assumes "split (strip line) = cid # cs" "polygon_to_bbox cs = Inr (cx, cy, w, h)"
  shows "process_line line =
    ([], Some (cid @ '' '' @ fmt6 cx @ '' '' @ fmt6 cy @ '' '' @ fmt6 w @ '' '' @ fmt6 h))"
proof -
  have "6 \<le> length cs" using assms(2) by (auto simp: polygon_to_bbox_def split: if_splits)
  then show ?thesis using assms by (simp add: process_line_def Let_def)
qed

section \<open>Evaluation on concrete tokens and lines\<close>

lemma floor_rat_numeral: "\<lfloor>(numeral a / numeral b :: rat)\<rfloor> = numeral a div numeral b"
  using floor_divide_of_int_eq [of "numeral a" "numeral b", where ?'a = rat] by simp

lemma digit_char_simps:
  "digit_char 0 = CHR ''0''" "digit_char 1 = CHR ''1''" "digit_char 2 = CHR ''2''"
  "digit_char 3 = CHR ''3''" "digit_char 4 = CHR ''4''" "digit_char 5 = CHR ''5''"
  "digit_char 6 = CHR ''6''" "digit_char 7 = CHR ''7''" "digit_char 8 = CHR ''8''"
  "digit_char 9 = CHR ''9''"
  by code_simp+

lemmas float_of_str_eval =
  float_of_str_def isdigit_def float_strip_def float_isspace_def split_sign_def tolower_def
  parse_decimal_def parse_exponent_def digits_val_def ipow_def Let_def

lemmas round_double_eval =
  round_double_def Let_def ipow_def round_half_even_def floor_rat_numeral

lemma ilog2_1: "ilog2 1 = 0"
  by code_simp

lemma ilog2_2: "ilog2 2 = 1"
  by code_simp

lemma ilog2_half: "ilog2 (1 / 2) = - 1"
  by code_simp

lemma round_double_0: "round_double 0 = Fin 0"
  by (simp add: round_double_def)

lemma round_double_1: "round_double 1 = Fin 1"
  by (simp add: round_double_eval ilog2_1)

lemma round_double_2: "round_double 2 = Fin 2"
  by (simp add: round_double_eval ilog2_2)

lemma round_double_half: "round_double (1 / 2) = Fin (1 / 2)"
  by (simp add: round_double_eval ilog2_half)

lemma float_0: "float_of_str ''0'' = Some (Fin 0)"
  by (simp add: float_of_str_eval round_double_0)

lemma float_1: "float_of_str ''1'' = Some (Fin 1)"
  by (simp add: float_of_str_eval round_double_1)

lemma float_2: "float_of_str ''2'' = Some (Fin 2)"
  by (simp add: float_of_str_eval round_double_2)

lemma float_0_0: "float_of_str ''0.0'' = Some (Fin 0)"
  by (simp add: float_of_str_eval round_double_0)

lemma float_neg_0_0: "float_of_str ''-0.0'' = Some NegZero"
  by (simp add: float_of_str_eval round_double_0)

lemma float_nan: "float_of_str ''nan'' = Some NaN"
  by (simp add: float_of_str_eval)

lemma float_inf: "float_of_str ''inf'' = Some PInf"
  by (simp add: float_of_str_eval)

lemma float_abc: "float_of_str ''abc'' = None"
  by (simp add: float_of_str_eval)

lemma range2_6: "range2 0 6 = [0, 2, 4]" "range2 (Suc 0) 6 = [1, 3, 5]"
  by code_simp+

lemma range2_7: "range2 0 7 = [0, 2, 4, 6]" "range2 (Suc 0) 7 = [1, 3, 5]"
  by code_simp+

lemma range2_8: "range2 0 8 = [0, 2, 4, 6]" "range2 (Suc 0) 8 = [1, 3, 5, 7]"
  by code_simp+

lemma Suc_numerals:
  "Suc (Suc (Suc (Suc (Suc (Suc 0))))) = 6"
  "Suc (Suc (Suc (Suc (Suc (Suc (Suc 0)))))) = 7"
  "Suc (Suc (Suc (Suc (Suc (Suc (Suc (Suc 0))))))) = 8"
  by simp_all

lemmas polygon_to_bbox_eval =
  polygon_to_bbox_def bind_err_def Suc_numerals range2_6 range2_7 range2_8 float_gt_def
  float_sub_def

lemmas fmt6_eval = fixed6_def Let_def round_half_even_def floor_rat_numeral digit_char_simps


lemma ilog2_tenth: "ilog2 (1 / 10) = - 4"
  by code_simp

lemma ilog2_fifth: "ilog2 (1 / 5) = - 3"
  by code_simp

lemma round_double_tenth: "round_double (1 / 10) = Fin (3602879701896397 / 36028797018963968)"
  by (simp add: round_double_eval ilog2_tenth)

lemma round_double_fifth: "round_double (1 / 5) = Fin (3602879701896397 / 18014398509481984)"
  by (simp add: round_double_eval ilog2_fifth)

lemma float_0_1: "float_of_str ''0.1'' = Some (Fin (3602879701896397 / 36028797018963968))"
  by (simp add: float_of_str_eval round_double_tenth)

lemma float_0_2: "float_of_str ''0.2'' = Some (Fin (3602879701896397 / 18014398509481984))"
  by (simp add: float_of_str_eval round_double_fifth)

lemma ilog2_sum: "ilog2 (10808639105689191 / 36028797018963968) = - 2"
  by code_simp

lemma ilog2_diff: "ilog2 (3602879701896397 / 36028797018963968) = - 4"
  by code_simp

lemma round_double_sum:
  "round_double (10808639105689191 / 36028797018963968) = Fin (1351079888211149 / 4503599627370496)"
  by (simp add: round_double_eval ilog2_sum)

lemma round_double_diff:
  "round_double (3602879701896397 / 36028797018963968) = Fin (3602879701896397 / 36028797018963968)"
  by (simp add: round_double_eval ilog2_diff)

lemma ilog2_center: "ilog2 (1351079888211149 / 9007199254740992) = - 3"
  by code_simp

lemma round_double_center:
  "round_double (1351079888211149 / 9007199254740992) = Fin (1351079888211149 / 9007199254740992)"
  by (simp add: round_double_eval ilog2_center)

lemma bbox_square:
  "polygon_to_bbox [''0.1'', ''0.1'', ''0.2'', ''0.1'', ''0.2'', ''0.2'', ''0.1'', ''0.2''] =
     Inr (Fin (1351079888211149 / 9007199254740992), Fin (1351079888211149 / 9007199254740992),
          Fin (3602879701896397 / 36028797018963968), Fin (3602879701896397 / 36028797018963968))"
  by (simp add: polygon_to_bbox_eval float_0_1 float_0_2 round_double_sum round_double_diff
      round_double_center)

lemma split_square:
  "split (strip ''0 0.1 0.1 0.2 0.1 0.2 0.2 0.1 0.2'') =
     [''0'', ''0.1'', ''0.1'', ''0.2'', ''0.1'', ''0.2'', ''0.2'', ''0.1'', ''0.2'']"
  by (simp add: split_def strip_def isspace_def)

lemma fmt6_square:
  "fmt6 (Fin (1351079888211149 / 9007199254740992)) = ''0.150000''"
  "fmt6 (Fin (3602879701896397 / 36028797018963968)) = ''0.100000''"
  by (simp_all add: fmt6_eval)

lemma square_numbers:
  "list_all is_number [''0.1'', ''0.1'', ''0.2'', ''0.1'', ''0.2'', ''0.2'', ''0.1'', ''0.2'']"
  "list_all is_finite_number [''0.1'', ''0.1'', ''0.2'', ''0.1'', ''0.2'', ''0.2'', ''0.1'', ''0.2'']"
  "list_all not_negative_zero [''0.1'', ''0.1'', ''0.2'', ''0.1'', ''0.2'', ''0.2'', ''0.1'', ''0.2'']"
  by (simp_all add: is_number_def accepted_def is_finite_number_def not_negative_zero_def
      float_0_1 float_0_2)

lemma split_odd:
  "split (strip ''0 0 0 1 0 1 1 2'') = ''0'' # [''0'', ''0'', ''1'', ''0'', ''1'', ''1''] @ [''2'']"
  "split (strip ''0 0 0 1 0 1 1'') = ''0'' # [''0'', ''0'', ''1'', ''0'', ''1'', ''1'']"
  by (simp_all add: split_def strip_def isspace_def)

lemma bbox_odd:
  "polygon_to_bbox ([''0'', ''0'', ''1'', ''0'', ''1'', ''1''] @ [''2'']) =
     Inr (Fin 1, Fin (1 / 2), Fin 2, Fin 1)"
  "polygon_to_bbox [''0'', ''0'', ''1'', ''0'', ''1'', ''1''] =
     Inr (Fin (1 / 2), Fin (1 / 2), Fin 1, Fin 1)"
  by (simp_all add: polygon_to_bbox_eval float_0 float_1 float_2 round_double_0 round_double_1
      round_double_2 round_double_half)

lemma fmt6_small:
  "fmt6 (Fin 1) = ''1.000000''" "fmt6 (Fin (1 / 2)) = ''0.500000''" "fmt6 (Fin 2) = ''2.000000''"
  by (simp_all add: fmt6_eval)

section \<open>The square example\<close>

text \<open>
  C5: \<open>process_line\<close> on the line \<open>0 0.1 0.1 0.2 0.1 0.2 0.2 0.1 0.2\<close> prints nothing
  and returns \<open>0 0.150000 0.150000 0.100000 0.100000\<close>.
\<close>

theorem transcode_square:
  "process_line ''0 0.1 0.1 0.2 0.1 0.2 0.2 0.1 0.2'' =
     ([], Some ''0 0.150000 0.150000 0.100000 0.100000'')"
  using process_line_Inr [OF split_square bbox_square, unfolded fmt6_square] by simp

section \<open>The reducer rejects short lists\<close>

text \<open>
  C7: for every coordinate list with fewer than 6 values the reducer raises the
  \<open>ValueError\<close> about too few points; it returns no bounding box.
\<close>

theorem polygon_to_bbox_short:
  "length polygon_coords < 6 \<Longrightarrow> polygon_to_bbox polygon_coords = Inl TooFewPoints"
  by (simp add: polygon_to_bbox_def)

theorem polygon_to_bbox_short_witness:
  "length [''0.1'', ''0.2'', ''0.3'', ''0.4''] < 6 \<and>
   polygon_to_bbox [''0.1'', ''0.2'', ''0.3'', ''0.4''] = Inl TooFewPoints"
  using polygon_to_bbox_short [of "[''0.1'', ''0.2'', ''0.3'', ''0.4'']"] by simp

section \<open>Tokens that are not numbers\<close>

text \<open>
  C10: when a list of at least 6 tokens contains one that \<open>float\<close> rejects, the reducer
  itself raises the \<open>ValueError\<close> of \<open>float\<close> (for one of the rejected tokens), and
  \<open>process_line\<close>, on any line whose coordinate tokens are that list, prints the warning
  for that error and returns \<open>None\<close>.
\<close>

theorem reducer_raises_on_non_numeric:
  assumes "6 \<le> length cs" and "\<not> list_all accepted cs"
  shows "\<exists>t. t \<in> set cs \<and> \<not> accepted t \<and> polygon_to_bbox cs = Inl (CouldNotConvert t) \<and>
           (\<forall>line class_id. split (strip line) = class_id # cs \<longrightarrow>
              process_line line = ([ErrorProcessingLine (CouldNotConvert t)], None))"
proof -
  from assms(2) have "\<exists>t\<in>set cs. float_of_str t = None"
    by (auto simp: list_all_iff accepted_def)
  from polygon_to_bbox_fail [OF assms(1) this] obtain t where t: "t \<in> set cs"
    "float_of_str t = None" "polygon_to_bbox cs = Inl (CouldNotConvert t)" by blast
  have "\<forall>line class_id. split (strip line) = class_id # cs \<longrightarrow>
              process_line line = ([ErrorProcessingLine (CouldNotConvert t)], None)"
    using process_line_Inl [OF _ t(3) assms(1)] by blast
  with t show ?thesis by (auto simp: accepted_def)
qed

text \<open>The list \<open>0 0 1 0 1 abc\<close> and the line \<open>7 0 0 1 0 1 abc\<close>.\<close>

theorem reducer_raises_on_non_numeric_witness:
  "6 \<le> length [''0'', ''0'', ''1'', ''0'', ''1'', ''abc''] \<and>
   \<not> list_all accepted [''0'', ''0'', ''1'', ''0'', ''1'', ''abc''] \<and>
   split (strip ''7 0 0 1 0 1 abc'') = ''7'' # [''0'', ''0'', ''1'', ''0'', ''1'', ''abc''] \<and>
   polygon_to_bbox [''0'', ''0'', ''1'', ''0'', ''1'', ''abc''] = Inl (CouldNotConvert ''abc'') \<and>
   process_line ''7 0 0 1 0 1 abc'' = ([ErrorProcessingLine (CouldNotConvert ''abc'')], None)"
proof -
  have len: "6 \<le> length [''0'', ''0'', ''1'', ''0'', ''1'', ''abc'']" by simp
  have bad: "\<not> list_all accepted [''0'', ''0'', ''1'', ''0'', ''1'', ''abc'']"
    by (simp add: accepted_def float_abc)
  have parts: "split (strip ''7 0 0 1 0 1 abc'') = ''7'' # [''0'', ''0'', ''1'', ''0'', ''1'', ''abc'']"
    by (simp add: split_def strip_def isspace_def)
  from reducer_raises_on_non_numeric [OF len bad] obtain t where
    t: "t \<in> set [''0'', ''0'', ''1'', ''0'', ''1'', ''abc'']" "\<not> accepted t"
    and r: "polygon_to_bbox [''0'', ''0'', ''1'', ''0'', ''1'', ''abc''] = Inl (CouldNotConvert t)"
    and p: "\<forall>line class_id. split (strip line) = class_id # [''0'', ''0'', ''1'', ''0'', ''1'', ''abc''] \<longrightarrow>
              process_line line = ([ErrorProcessingLine (CouldNotConvert t)], None)"
    by blast
  from t have "t = ''abc''" by (auto simp: accepted_def float_0 float_1)
  with len bad parts r p show ?thesis by blast
qed

text \<open>
  C3: \<open>process_line\<close> returns \<open>None\<close> for every line with fewer than 7 tokens, and for
  every line one of whose tokens after the first is rejected by \<open>float\<close>.
\<close>

theorem process_line_skips:
  assumes "length (split (strip line)) < 7 \<or> \<not> list_all accepted (tl (split (strip line)))"
  shows "snd (process_line line) = None"
proof (cases "length (split (strip line)) < 7")
  case True
  then show ?thesis by (simp add: process_line_def)
next
  case False
  then obtain cid cs where parts: "split (strip line) = cid # cs"
    by (cases "split (strip line)") auto
  from False parts have len: "6 \<le> length cs" by simp
  from assms False parts have "\<exists>t\<in>set cs. float_of_str t = None"
    by (auto simp: list_all_iff accepted_def)
  from polygon_to_bbox_fail [OF len this] obtain t where "polygon_to_bbox cs = Inl (CouldNotConvert t)"
    by blast
  from process_line_Inl [OF parts this len] show ?thesis by simp
qed

text \<open>A line of three tokens, and a line of seven tokens whose last is \<open>abc\<close>.\<close>

theorem process_line_skips_witness:
  "length (split (strip ''0 0 1'')) < 7 \<and> snd (process_line ''0 0 1'') = None \<and>
   \<not> list_all accepted (tl (split (strip ''7 0 0 1 0 1 abc''))) \<and>
   snd (process_line ''7 0 0 1 0 1 abc'') = None"
proof -
  have 1: "length (split (strip ''0 0 1'')) < 7"
    by (simp add: split_def strip_def isspace_def)
  have 2: "\<not> list_all accepted (tl (split (strip ''7 0 0 1 0 1 abc'')))"
    by (simp add: split_def strip_def isspace_def accepted_def float_abc)
  from 1 2 process_line_skips [of "''0 0 1''"] process_line_skips [of "''7 0 0 1 0 1 abc''"]
  show ?thesis by blast
qed

section \<open>The bounding box\<close>

lemma set_x_values: "set (x_values cs) \<subseteq> (\<lambda>t. the (float_of_str t)) ` set cs"
  by (auto simp: x_values_def)

lemma set_y_values: "set (y_values cs) \<subseteq> (\<lambda>t. the (float_of_str t)) ` set cs"
  by (auto simp: y_values_def)

lemma is_minimum_py_min:
  assumes "py_min vs = Inr m" and "NaN \<notin> set vs"
  shows "is_minimum m vs"
proof -
  from assms(1) obtain x xs where vs: "vs = x # xs" by (cases vs) auto
  from py_min_spec [of x xs m] assms(1) vs
  have mem: "m \<in> set vs" and low: "\<forall>v\<in>set vs. \<not> float_lt v m" by auto
  from mem assms(2) have "m \<noteq> NaN" by auto
  with low assms(2) have "\<forall>v\<in>set vs. float_ge v m"
    by (metis float_ge_iff)
  with mem show ?thesis by (simp add: is_minimum_def list_all_iff)
qed

lemma is_maximum_py_max:
  assumes "py_max vs = Inr m" and "NaN \<notin> set vs"
  shows "is_maximum m vs"
proof -
  from assms(1) obtain x xs where vs: "vs = x # xs" by (cases vs) auto
  from py_max_spec [of x xs m] assms(1) vs
  have mem: "m \<in> set vs" and low: "\<forall>v\<in>set vs. \<not> float_lt m v" by auto
  from mem assms(2) have "m \<noteq> NaN" by auto
  with low assms(2) have "\<forall>v\<in>set vs. float_ge m v"
    by (metis float_ge_iff)
  with mem show ?thesis by (simp add: is_maximum_def list_all_iff)
qed

text \<open>
  C1: for every flattened coordinate list of at least 6 tokens that denote numbers (none
  is rejected, none is a NaN), the reducer returns \<open>(center_x, center_y, width, height)\<close>
  with \<open>center_x = (min_x + max_x) / 2\<close>, \<open>center_y = (min_y + max_y) / 2\<close>,
  \<open>width = max_x - min_x\<close> and \<open>height = max_y - min_y\<close> in float arithmetic, where
  \<open>min_x\<close> and \<open>max_x\<close> are a minimum and a maximum of the values at the even positions
  and \<open>min_y\<close> and \<open>max_y\<close> of those at the odd positions.
\<close>

theorem polygon_to_bbox_formula:
  assumes "6 \<le> length cs" and "list_all is_number cs"
  shows "\<exists>min_x max_x min_y max_y.
           is_minimum min_x (x_values cs) \<and> is_maximum max_x (x_values cs) \<and>
           is_minimum min_y (y_values cs) \<and> is_maximum max_y (y_values cs) \<and>
           polygon_to_bbox cs =
             Inr (float_half (float_add min_x max_x), float_half (float_add min_y max_y),
                  float_sub max_x min_x, float_sub max_y min_y)"
proof -
  from assms(2) have ok: "\<forall>t\<in>set cs. float_of_str t \<noteq> None"
    by (auto simp: list_all_iff is_number_def accepted_def)
  from assms(2) have "NaN \<notin> (\<lambda>t. the (float_of_str t)) ` set cs"
    by (force simp: list_all_iff is_number_def accepted_def)
  then have nx: "NaN \<notin> set (x_values cs)" and ny: "NaN \<notin> set (y_values cs)"
    using set_x_values [of cs] set_y_values [of cs] by blast+
  from polygon_to_bbox_values [OF assms(1) ok] obtain min_x max_x min_y max_y where
    v: "py_min (x_values cs) = Inr min_x" "py_max (x_values cs) = Inr max_x"
       "py_min (y_values cs) = Inr min_y" "py_max (y_values cs) = Inr max_y"
    and r: "polygon_to_bbox cs =
             Inr (float_half (float_add min_x max_x), float_half (float_add min_y max_y),
                  float_sub max_x min_x, float_sub max_y min_y)"
    by blast
  from v nx ny have "is_minimum min_x (x_values cs)" "is_maximum max_x (x_values cs)"
    "is_minimum min_y (y_values cs)" "is_maximum max_y (y_values cs)"
    by (simp_all add: is_minimum_py_min is_maximum_py_max)
  with r show ?thesis by blast
qed

text \<open>The four vertices of the square example.\<close>

theorem polygon_to_bbox_formula_witness:
  "6 \<le> length [''0.1'', ''0.1'', ''0.2'', ''0.1'', ''0.2'', ''0.2'', ''0.1'', ''0.2''] \<and>
   list_all is_number [''0.1'', ''0.1'', ''0.2'', ''0.1'', ''0.2'', ''0.2'', ''0.1'', ''0.2''] \<and>
   (\<exists>min_x max_x min_y max_y.
      is_minimum min_x (x_values [''0.1'', ''0.1'', ''0.2'', ''0.1'', ''0.2'', ''0.2'', ''0.1'', ''0.2'']) \<and>
      is_maximum max_x (x_values [''0.1'', ''0.1'', ''0.2'', ''0.1'', ''0.2'', ''0.2'', ''0.1'', ''0.2'']) \<and>
      is_minimum min_y (y_values [''0.1'', ''0.1'', ''0.2'', ''0.1'', ''0.2'', ''0.2'', ''0.1'', ''0.2'']) \<and>
      is_maximum max_y (y_values [''0.1'', ''0.1'', ''0.2'', ''0.1'', ''0.2'', ''0.2'', ''0.1'', ''0.2'']) \<and>
      polygon_to_bbox [''0.1'', ''0.1'', ''0.2'', ''0.1'', ''0.2'', ''0.2'', ''0.1'', ''0.2''] =
        Inr (float_half (float_add min_x max_x), float_half (float_add min_y max_y),
             float_sub max_x min_x, float_sub max_y min_y))"
proof -
  have len: "6 \<le> length [''0.1'', ''0.1'', ''0.2'', ''0.1'', ''0.2'', ''0.2'', ''0.1'', ''0.2'']"
    by simp
  from len square_numbers(1) polygon_to_bbox_formula [OF len square_numbers(1)]
  show ?thesis by blast
qed

lemma round_half_even_nonneg: "0 \<le> x \<Longrightarrow> 0 \<le> round_half_even x"
  by (simp add: round_half_even_def Let_def)

lemma round_double_nonneg: "0 \<le> q \<Longrightarrow> float_ge (round_double q) (Fin 0)"
proof -
  assume q: "0 \<le> q"
  have "0 \<le> round_half_even (\<bar>q\<bar> / ipow 2 (max (ilog2 \<bar>q\<bar> - 52) (- 1074)))"
    by (rule round_half_even_nonneg) (simp add: ipow_pos less_imp_le)
  then have "0 \<le> rat_of_int (round_half_even (\<bar>q\<bar> / ipow 2 (max (ilog2 \<bar>q\<bar> - 52) (- 1074))))
               * ipow 2 (max (ilog2 \<bar>q\<bar> - 52) (- 1074))"
    by (simp add: ipow_pos less_imp_le)
  with q show ?thesis by (simp add: round_double_def Let_def)
qed

lemma float_sub_nonneg:
  "is_finite a \<Longrightarrow> is_finite b \<Longrightarrow> \<not> float_lt a b \<Longrightarrow> float_ge (float_sub a b) (Fin 0)"
  by (cases a; cases b) (auto simp: float_sub_def round_double_nonneg)

lemma py_extent_nonneg:
  assumes "py_min vs = Inr mn" "py_max vs = Inr mx" "\<forall>v\<in>set vs. is_finite v"
  shows "float_ge (float_sub mx mn) (Fin 0)"
proof -
  from assms(1) obtain x xs where vs: "vs = x # xs" by (cases vs) auto
  from py_min_spec [of x xs mn] assms(1) vs
  have 1: "mn \<in> set vs" "\<forall>v\<in>set vs. \<not> float_lt v mn" by auto
  from py_max_spec [of x xs mx] assms(2) vs
  have 2: "mx \<in> set vs" by auto
  from 1 2 assms(3) show ?thesis by (intro float_sub_nonneg) auto
qed

text \<open>
  C6, amended: for every list of at least 6 coordinate tokens that all denote finite
  numbers (no infinity, no NaN), the width and the height returned by the reducer are
  \<open>>= 0\<close>.
\<close>

theorem width_height_nonneg:
  assumes "6 \<le> length cs" and "list_all is_finite_number cs"
  shows "\<exists>center_x center_y width height.
           polygon_to_bbox cs = Inr (center_x, center_y, width, height) \<and>
           float_ge width (Fin 0) \<and> float_ge height (Fin 0)"
proof -
  from assms(2) have ok: "\<forall>t\<in>set cs. float_of_str t \<noteq> None"
    by (auto simp: list_all_iff is_finite_number_def split: option.splits)
  from assms(2) have "\<forall>v\<in>(\<lambda>t. the (float_of_str t)) ` set cs. is_finite v"
    by (auto simp: list_all_iff is_finite_number_def split: option.splits)
  then have fx: "\<forall>v\<in>set (x_values cs). is_finite v" and fy: "\<forall>v\<in>set (y_values cs). is_finite v"
    using set_x_values [of cs] set_y_values [of cs] by blast+
  from polygon_to_bbox_values [OF assms(1) ok] obtain min_x max_x min_y max_y where
    v: "py_min (x_values cs) = Inr min_x" "py_max (x_values cs) = Inr max_x"
       "py_min (y_values cs) = Inr min_y" "py_max (y_values cs) = Inr max_y"
    and r: "polygon_to_bbox cs =
             Inr (float_half (float_add min_x max_x), float_half (float_add min_y max_y),
                  float_sub max_x min_x, float_sub max_y min_y)"
    by blast
  from py_extent_nonneg [OF v(1) v(2) fx] py_extent_nonneg [OF v(3) v(4) fy] r
  show ?thesis by blast
qed

text \<open>The square example: its width is the float nearest to one tenth.\<close>

theorem width_height_nonneg_witness:
  "6 \<le> length [''0.1'', ''0.1'', ''0.2'', ''0.1'', ''0.2'', ''0.2'', ''0.1'', ''0.2''] \<and>
   list_all is_finite_number [''0.1'', ''0.1'', ''0.2'', ''0.1'', ''0.2'', ''0.2'', ''0.1'', ''0.2''] \<and>
   float_ge (Fin (3602879701896397 / 36028797018963968)) (Fin 0)"
proof -
  have len: "6 \<le> length [''0.1'', ''0.1'', ''0.2'', ''0.1'', ''0.2'', ''0.2'', ''0.1'', ''0.2'']"
    by simp
  from width_height_nonneg [OF len square_numbers(2)] obtain center_x center_y width height where
    "polygon_to_bbox [''0.1'', ''0.1'', ''0.2'', ''0.1'', ''0.2'', ''0.2'', ''0.1'', ''0.2''] =
       Inr (center_x, center_y, width, height)" and ge: "float_ge width (Fin 0)"
    by blast
  then have "width = Fin (3602879701896397 / 36028797018963968)" by (simp add: bbox_square)
  with ge len square_numbers(2) show ?thesis by blast
qed

text \<open>
  C6 as stated fails on tokens that denote an infinity: with every x equal to \<open>inf\<close>
  the width is \<open>inf - inf\<close>, a NaN, and \<open>nan >= 0\<close> is false.
\<close>

theorem width_not_nonneg_counterexample:
  "polygon_to_bbox [''inf'', ''0'', ''inf'', ''0'', ''inf'', ''0''] = Inr (PInf, Fin 0, NaN, Fin 0) \<and>
   \<not> float_ge NaN (Fin 0)"
  by (simp add: polygon_to_bbox_eval float_0 float_inf round_double_0)

section \<open>Reordering the vertices\<close>

lemma upt_Suc_Suc: "[0..<Suc (Suc n)] = 0 # Suc 0 # map (\<lambda>i. Suc (Suc i)) [0..<n]"
proof -
  have "map (\<lambda>i. Suc (Suc i)) [0..<n] = map Suc (map Suc [0..<n])" by simp
  also have "\<dots> = [Suc (Suc 0)..<Suc (Suc n)]" by (simp only: map_Suc_upt)
  finally show ?thesis by (simp add: upt_conv_Cons)
qed

lemma x_values_Cons2:
  "x_values (a # b # cs) = the (float_of_str a) # x_values cs"
  by (simp add: x_values_def upt_Suc_Suc filter_map comp_def del: upt_Suc)

lemma y_values_Cons2:
  "y_values (a # b # cs) = the (float_of_str b) # y_values cs"
  by (simp add: y_values_def upt_Suc_Suc filter_map comp_def del: upt_Suc)

lemma x_values_flatten: "x_values (flatten ps) = map (\<lambda>p. the (float_of_str (fst p))) ps"
proof (induction ps)
  case Nil
  show ?case by (simp add: flatten_def x_values_def)
next
  case (Cons p ps)
  obtain x y where p: "p = (x, y)" by (cases p)
  have "flatten (p # ps) = x # y # flatten ps" by (simp add: flatten_def p)
  with Cons show ?case by (simp add: x_values_Cons2 p)
qed

lemma y_values_flatten: "y_values (flatten ps) = map (\<lambda>p. the (float_of_str (snd p))) ps"
proof (induction ps)
  case Nil
  show ?case by (simp add: flatten_def y_values_def)
next
  case (Cons p ps)
  obtain x y where p: "p = (x, y)" by (cases p)
  have "flatten (p # ps) = x # y # flatten ps" by (simp add: flatten_def p)
  with Cons show ?case by (simp add: y_values_Cons2 p)
qed

lemma length_flatten: "length (flatten ps) = 2 * length ps"
  by (induction ps) (auto simp: flatten_def)

lemma set_flatten: "set (flatten ps) = fst ` set ps \<union> snd ` set ps"
  by (induction ps) (auto simp: flatten_def)

lemma same_number_neg: "same_number a b \<Longrightarrow> same_number (float_neg a) (float_neg b)"
  by (auto simp: same_number_def)

lemma same_number_half: "same_number a b \<Longrightarrow> same_number (float_half a) (float_half b)"
  by (auto simp: same_number_def round_double_def)

lemma float_add_zero_left:
  "a = Fin 0 \<or> a = NegZero \<Longrightarrow> a' = Fin 0 \<or> a' = NegZero \<Longrightarrow>
   same_number (float_add a b) (float_add a' b)"
  by (cases b) (auto simp: same_number_def round_double_def)

lemma float_add_zero_right:
  "b = Fin 0 \<or> b = NegZero \<Longrightarrow> b' = Fin 0 \<or> b' = NegZero \<Longrightarrow>
   same_number (float_add a b) (float_add a b')"
  by (cases a) (auto simp: same_number_def round_double_def)

lemma same_number_trans: "same_number a b \<Longrightarrow> same_number b c \<Longrightarrow> same_number a c"
  by (auto simp: same_number_def)

lemma same_number_add:
  assumes "same_number a a'" "same_number b b'"
  shows "same_number (float_add a b) (float_add a' b')"
proof -
  have 1: "same_number (float_add a b) (float_add a' b)"
    using assms(1) float_add_zero_left [of a a' b] by (auto simp: same_number_def)
  have 2: "same_number (float_add a' b) (float_add a' b')"
    using assms(2) float_add_zero_right [of b b' a'] by (auto simp: same_number_def)
  from 1 2 show ?thesis by (rule same_number_trans)
qed

lemma same_number_sub:
  "same_number a a' \<Longrightarrow> same_number b b' \<Longrightarrow> same_number (float_sub a b) (float_sub a' b')"
  by (simp add: float_sub_def same_number_add same_number_neg)

lemma same_number_eq: "same_number a b \<Longrightarrow> a \<noteq> NegZero \<Longrightarrow> b \<noteq> NegZero \<Longrightarrow> a = b"
  by (auto simp: same_number_def)

lemma py_min_perm:
  assumes "py_min vs = Inr m" "py_min vs' = Inr m'" "set vs = set vs'" "NaN \<notin> set vs"
  shows "same_number m m' \<and> (NegZero \<notin> set vs \<longrightarrow> m = m')"
proof -
  from assms(1) obtain x xs where vs: "vs = x # xs" by (cases vs) auto
  from assms(2) obtain x' xs' where vs': "vs' = x' # xs'" by (cases vs') auto
  from py_min_spec [of x xs m] assms(1) vs
  have 1: "m \<in> set vs" "\<forall>v\<in>set vs. \<not> float_lt v m" by auto
  from py_min_spec [of x' xs' m'] assms(2) vs'
  have 2: "m' \<in> set vs'" "\<forall>v\<in>set vs'. \<not> float_lt v m'" by auto
  from 1 2 assms(3,4) have "m \<noteq> NaN" "m' \<noteq> NaN" "\<not> float_lt m m'" "\<not> float_lt m' m"
    by auto
  then have "same_number m m'" by (rule float_lt_same)
  moreover from this 1(1) 2(1) assms(3) have "NegZero \<notin> set vs \<longrightarrow> m = m'"
    by (auto intro: same_number_eq)
  ultimately show ?thesis by blast
qed

lemma py_max_perm:
  assumes "py_max vs = Inr m" "py_max vs' = Inr m'" "set vs = set vs'" "NaN \<notin> set vs"
  shows "same_number m m' \<and> (NegZero \<notin> set vs \<longrightarrow> m = m')"
proof -
  from assms(1) obtain x xs where vs: "vs = x # xs" by (cases vs) auto
  from assms(2) obtain x' xs' where vs': "vs' = x' # xs'" by (cases vs') auto
  from py_max_spec [of x xs m] assms(1) vs
  have 1: "m \<in> set vs" "\<forall>v\<in>set vs. \<not> float_lt m v" by auto
  from py_max_spec [of x' xs' m'] assms(2) vs'
  have 2: "m' \<in> set vs'" "\<forall>v\<in>set vs'. \<not> float_lt m' v" by auto
  from 1 2 assms(3,4) have "m \<noteq> NaN" "m' \<noteq> NaN" "\<not> float_lt m m'" "\<not> float_lt m' m"
    by auto
  then have "same_number m m'" by (rule float_lt_same)
  moreover from this 1(1) 2(1) assms(3) have "NegZero \<notin> set vs \<longrightarrow> m = m'"
    by (auto intro: same_number_eq)
  ultimately show ?thesis by blast
qed

text \<open>
  C4, amended: for every list of at least 3 vertices whose coordinate tokens denote
  numbers (none is a NaN), and for every permutation of the vertices, the reducer returns
  the same bounding box but for the sign of a zero; and exactly the same bounding box
  when no coordinate is the negative zero.
\<close>

theorem reducer_permutation_invariant:
  assumes "3 \<le> length ps"
    and "mset ps' = mset ps"
    and "list_all is_number (flatten ps)"
  shows "\<exists>b b'. polygon_to_bbox (flatten ps) = Inr b \<and> polygon_to_bbox (flatten ps') = Inr b' \<and>
                same_bbox b b' \<and> (list_all not_negative_zero (flatten ps) \<longrightarrow> b = b')"
proof -
  from assms(2) have set_eq: "set ps' = set ps" by (rule mset_eq_setD)
  from assms(2) have "length ps' = length ps" by (rule mset_eq_length)
  with assms(1) have len: "6 \<le> length (flatten ps)" and len': "6 \<le> length (flatten ps')"
    by (simp_all add: length_flatten)
  have fl: "set (flatten ps') = set (flatten ps)" by (simp add: set_flatten set_eq)
  from assms(3) have ok: "\<forall>t\<in>set (flatten ps). float_of_str t \<noteq> None"
    by (auto simp: list_all_iff is_number_def accepted_def)
  with fl have ok': "\<forall>t\<in>set (flatten ps'). float_of_str t \<noteq> None" by simp
  from assms(3) have "NaN \<notin> (\<lambda>t. the (float_of_str t)) ` set (flatten ps)"
    by (force simp: list_all_iff is_number_def accepted_def)
  then have nx: "NaN \<notin> set (x_values (flatten ps))" and ny: "NaN \<notin> set (y_values (flatten ps))"
    using set_x_values [of "flatten ps"] set_y_values [of "flatten ps"] by blast+
  have sx: "set (x_values (flatten ps)) = set (x_values (flatten ps'))"
    and sy: "set (y_values (flatten ps)) = set (y_values (flatten ps'))"
    by (simp_all add: x_values_flatten y_values_flatten set_eq)
  from polygon_to_bbox_values [OF len ok] obtain min_x max_x min_y max_y where
    v: "py_min (x_values (flatten ps)) = Inr min_x" "py_max (x_values (flatten ps)) = Inr max_x"
       "py_min (y_values (flatten ps)) = Inr min_y" "py_max (y_values (flatten ps)) = Inr max_y"
    and r: "polygon_to_bbox (flatten ps) =
             Inr (float_half (float_add min_x max_x), float_half (float_add min_y max_y),
                  float_sub max_x min_x, float_sub max_y min_y)"
    by blast
  from polygon_to_bbox_values [OF len' ok'] obtain min_x' max_x' min_y' max_y' where
    v': "py_min (x_values (flatten ps')) = Inr min_x'" "py_max (x_values (flatten ps')) = Inr max_x'"
       "py_min (y_values (flatten ps')) = Inr min_y'" "py_max (y_values (flatten ps')) = Inr max_y'"
    and r': "polygon_to_bbox (flatten ps') =
             Inr (float_half (float_add min_x' max_x'), float_half (float_add min_y' max_y'),
                  float_sub max_x' min_x', float_sub max_y' min_y')"
    by blast
  note px = py_min_perm [OF v(1) v'(1) sx nx] py_max_perm [OF v(2) v'(2) sx nx]
  note py = py_min_perm [OF v(3) v'(3) sy ny] py_max_perm [OF v(4) v'(4) sy ny]
  have "same_bbox (float_half (float_add min_x max_x), float_half (float_add min_y max_y),
                  float_sub max_x min_x, float_sub max_y min_y)
          (float_half (float_add min_x' max_x'), float_half (float_add min_y' max_y'),
                  float_sub max_x' min_x', float_sub max_y' min_y')"
    using px py by (simp add: same_number_half same_number_add same_number_sub)
  with r r' have same: "\<exists>b b'. polygon_to_bbox (flatten ps) = Inr b \<and>
      polygon_to_bbox (flatten ps') = Inr b' \<and> same_bbox b b'" by blast
  have exact: "polygon_to_bbox (flatten ps) = polygon_to_bbox (flatten ps')"
    if nz: "list_all not_negative_zero (flatten ps)"
  proof -
    from nz ok have "NegZero \<notin> (\<lambda>t. the (float_of_str t)) ` set (flatten ps)"
      by (force simp: list_all_iff not_negative_zero_def)
    then have "NegZero \<notin> set (x_values (flatten ps))" "NegZero \<notin> set (y_values (flatten ps))"
      using set_x_values [of "flatten ps"] set_y_values [of "flatten ps"] by blast+
    with px py have "min_x = min_x'" "max_x = max_x'" "min_y = min_y'" "max_y = max_y'"
      by blast+
    with r r' show ?thesis by simp
  qed
  from same exact show ?thesis by auto
qed

text \<open>The vertices of the square example, reordered.\<close>

theorem reducer_permutation_invariant_witness:
  "3 \<le> length [(''0.1'', ''0.1''), (''0.2'', ''0.1''), (''0.2'', ''0.2''), (''0.1'', ''0.2'')] \<and>
   mset [(''0.2'', ''0.2''), (''0.1'', ''0.1''), (''0.1'', ''0.2''), (''0.2'', ''0.1'')] =
   mset [(''0.1'', ''0.1''), (''0.2'', ''0.1''), (''0.2'', ''0.2''), (''0.1'', ''0.2'')] \<and>
   list_all is_number
     (flatten [(''0.1'', ''0.1''), (''0.2'', ''0.1''), (''0.2'', ''0.2''), (''0.1'', ''0.2'')]) \<and>
   list_all not_negative_zero
     (flatten [(''0.1'', ''0.1''), (''0.2'', ''0.1''), (''0.2'', ''0.2''), (''0.1'', ''0.2'')]) \<and>
   polygon_to_bbox
     (flatten [(''0.2'', ''0.2''), (''0.1'', ''0.1''), (''0.1'', ''0.2''), (''0.2'', ''0.1'')]) =
   polygon_to_bbox
     (flatten [(''0.1'', ''0.1''), (''0.2'', ''0.1''), (''0.2'', ''0.2''), (''0.1'', ''0.2'')])"
proof -
  let ?ps = "[(''0.1'', ''0.1''), (''0.2'', ''0.1''), (''0.2'', ''0.2''), (''0.1'', ''0.2'')]"
  let ?ps' = "[(''0.2'', ''0.2''), (''0.1'', ''0.1''), (''0.1'', ''0.2''), (''0.2'', ''0.1'')]"
  have len: "3 \<le> length ?ps" by simp
  have perm: "mset ?ps' = mset ?ps" by (simp add: add_mset_commute)
  have fl: "flatten ?ps = [''0.1'', ''0.1'', ''0.2'', ''0.1'', ''0.2'', ''0.2'', ''0.1'', ''0.2'']"
    by (simp add: flatten_def)
  have num: "list_all is_number (flatten ?ps)" unfolding fl by (rule square_numbers(1))
  have nz: "list_all not_negative_zero (flatten ?ps)" unfolding fl by (rule square_numbers(3))
  from reducer_permutation_invariant [OF len perm num] nz
  have "polygon_to_bbox (flatten ?ps') = polygon_to_bbox (flatten ?ps)" by auto
  with len perm num nz show ?thesis by blast
qed

text \<open>
  C4 as stated fails in two ways. With a NaN among the x values, \<open>min\<close> and \<open>max\<close>
  return the NaN when it comes first and ignore it otherwise. With zeros of both signs,
  the center is \<open>0.0\<close> or \<open>-0.0\<close> according to which zero comes first.
\<close>

theorem reducer_permutation_counterexample:
  "mset [(''1'', ''0''), (''nan'', ''0''), (''1'', ''0'')] =
   mset [(''nan'', ''0''), (''1'', ''0''), (''1'', ''0'')] \<and>
   polygon_to_bbox (flatten [(''nan'', ''0''), (''1'', ''0''), (''1'', ''0'')]) =
     Inr (NaN, Fin 0, NaN, Fin 0) \<and>
   polygon_to_bbox (flatten [(''1'', ''0''), (''nan'', ''0''), (''1'', ''0'')]) =
     Inr (Fin 1, Fin 0, Fin 0, Fin 0) \<and>
   mset [(''-0.0'', ''0''), (''0.0'', ''0''), (''-0.0'', ''0'')] =
   mset [(''0.0'', ''0''), (''-0.0'', ''0''), (''-0.0'', ''0'')] \<and>
   polygon_to_bbox (flatten [(''0.0'', ''0''), (''-0.0'', ''0''), (''-0.0'', ''0'')]) =
     Inr (Fin 0, Fin 0, Fin 0, Fin 0) \<and>
   polygon_to_bbox (flatten [(''-0.0'', ''0''), (''0.0'', ''0''), (''-0.0'', ''0'')]) =
     Inr (NegZero, Fin 0, Fin 0, Fin 0)"
  by (simp add: flatten_def add_mset_commute polygon_to_bbox_eval float_0 float_1 float_nan
      float_0_0 float_neg_0_0 round_double_0 round_double_1 round_double_2)

section \<open>An unpaired last token\<close>

lemma x_values_snoc:
  assumes "even (length cs)"
  shows "x_values (cs @ [t]) = x_values cs @ [the (float_of_str t)]"
proof -
  have "map (\<lambda>i. the (float_of_str ((cs @ [t]) ! i))) (filter even [0..<length cs])
        = map (\<lambda>i. the (float_of_str (cs ! i))) (filter even [0..<length cs])"
    by (rule map_cong) (auto simp: nth_append)
  with assms show ?thesis by (simp add: x_values_def)
qed

lemma y_values_snoc:
  assumes "even (length cs)"
  shows "y_values (cs @ [t]) = y_values cs"
proof -
  have "map (\<lambda>i. the (float_of_str ((cs @ [t]) ! i))) (filter odd [0..<length cs])
        = map (\<lambda>i. the (float_of_str (cs ! i))) (filter odd [0..<length cs])"
    by (rule map_cong) (auto simp: nth_append)
  with assms show ?thesis by (simp add: y_values_def)
qed

text \<open>
  C2, amended: on a line with an odd number (at least 7) of coordinate tokens, all
  accepted by \<open>float\<close>, the last token is read as one more x value. The center x and
  the width of the output come from the minimum and the maximum of the x values with
  the value of that token among them; the center y and the height are those of the
  output for the line without the token; nothing is printed.
\<close>

theorem unpaired_token_is_x:
  assumes parts: "split (strip line) = class_id # cs @ [t]"
    and parts': "split (strip line') = class_id # cs"
    and ev: "even (length cs)" and len: "6 \<le> length cs"
    and acc: "list_all accepted (cs @ [t])"
  shows "\<exists>center_x center_y width height min_x max_x.
           process_line line' =
             ([], Some (class_id @ '' '' @ fmt6 center_x @ '' '' @ fmt6 center_y @ '' ''
                        @ fmt6 width @ '' '' @ fmt6 height)) \<and>
           py_min (x_values cs @ [the (float_of_str t)]) = Inr min_x \<and>
           py_max (x_values cs @ [the (float_of_str t)]) = Inr max_x \<and>
           process_line line =
             ([], Some (class_id @ '' '' @ fmt6 (float_half (float_add min_x max_x)) @ '' ''
                        @ fmt6 center_y @ '' '' @ fmt6 (float_sub max_x min_x) @ '' ''
                        @ fmt6 height))"
proof -
  from acc have ok: "\<forall>t'\<in>set (cs @ [t]). float_of_str t' \<noteq> None"
    by (simp add: list_all_iff accepted_def)
  then have ok': "\<forall>t'\<in>set cs. float_of_str t' \<noteq> None" by simp
  from len have len2: "6 \<le> length (cs @ [t])" by simp
  from polygon_to_bbox_values [OF len ok'] obtain min_x' max_x' min_y max_y where
    v': "py_min (y_values cs) = Inr min_y" "py_max (y_values cs) = Inr max_y"
    and r': "polygon_to_bbox cs =
             Inr (float_half (float_add min_x' max_x'), float_half (float_add min_y max_y),
                  float_sub max_x' min_x', float_sub max_y min_y)"
    by blast
  from polygon_to_bbox_values [OF len2 ok] obtain min_x max_x min_y2 max_y2 where
    v: "py_min (x_values (cs @ [t])) = Inr min_x" "py_max (x_values (cs @ [t])) = Inr max_x"
       "py_min (y_values (cs @ [t])) = Inr min_y2" "py_max (y_values (cs @ [t])) = Inr max_y2"
    and r: "polygon_to_bbox (cs @ [t]) =
             Inr (float_half (float_add min_x max_x), float_half (float_add min_y2 max_y2),
                  float_sub max_x min_x, float_sub max_y2 min_y2)"
    by blast
  from v(3,4) v' have y: "min_y2 = min_y" "max_y2 = max_y" by (simp_all add: y_values_snoc [OF ev])
  from v(1,2) have x: "py_min (x_values cs @ [the (float_of_str t)]) = Inr min_x"
    "py_max (x_values cs @ [the (float_of_str t)]) = Inr max_x"
    by (simp_all add: x_values_snoc [OF ev])
  note p' = process_line_Inr [OF parts' r']
  note p = process_line_Inr [OF parts r [unfolded y]]
  from p' p x show ?thesis by blast
qed

text \<open>The line \<open>0 0 0 1 0 1 1 2\<close>, whose last token has no partner.\<close>

theorem unpaired_token_is_x_witness:
  "split (strip ''0 0 0 1 0 1 1 2'') = ''0'' # [''0'', ''0'', ''1'', ''0'', ''1'', ''1''] @ [''2''] \<and>
   split (strip ''0 0 0 1 0 1 1'') = ''0'' # [''0'', ''0'', ''1'', ''0'', ''1'', ''1''] \<and>
   even (length [''0'', ''0'', ''1'', ''0'', ''1'', ''1'']) \<and>
   6 \<le> length [''0'', ''0'', ''1'', ''0'', ''1'', ''1''] \<and>
   list_all accepted ([''0'', ''0'', ''1'', ''0'', ''1'', ''1''] @ [''2'']) \<and>
   (\<exists>center_x center_y width height min_x max_x.
      process_line ''0 0 0 1 0 1 1'' =
        ([], Some (''0'' @ '' '' @ fmt6 center_x @ '' '' @ fmt6 center_y @ '' ''
                   @ fmt6 width @ '' '' @ fmt6 height)) \<and>
      py_min (x_values [''0'', ''0'', ''1'', ''0'', ''1'', ''1''] @ [the (float_of_str ''2'')]) = Inr min_x \<and>
      py_max (x_values [''0'', ''0'', ''1'', ''0'', ''1'', ''1''] @ [the (float_of_str ''2'')]) = Inr max_x \<and>
      process_line ''0 0 0 1 0 1 1 2'' =
        ([], Some (''0'' @ '' '' @ fmt6 (float_half (float_add min_x max_x)) @ '' ''
                   @ fmt6 center_y @ '' '' @ fmt6 (float_sub max_x min_x) @ '' ''
                   @ fmt6 height)))"
proof -
  have ev: "even (length [''0'', ''0'', ''1'', ''0'', ''1'', ''1''])" by simp
  have len: "6 \<le> length [''0'', ''0'', ''1'', ''0'', ''1'', ''1'']" by simp
  have acc: "list_all accepted ([''0'', ''0'', ''1'', ''0'', ''1'', ''1''] @ [''2''])"
    by (simp add: accepted_def float_0 float_1 float_2)
  from split_odd ev len acc unpaired_token_is_x [OF split_odd(1) split_odd(2) ev len acc]
  show ?thesis by blast
qed

text \<open>
  C2 as stated fails: the last token \<open>2\<close> of \<open>0 0 0 1 0 1 1 2\<close> is read as an x
  value, and the output differs from that of the line without it.
\<close>

theorem unpaired_token_counterexample:
  "split (strip ''0 0 0 1 0 1 1 2'') = split (strip ''0 0 0 1 0 1 1'') @ [''2''] \<and>
   process_line ''0 0 0 1 0 1 1 2'' = ([], Some ''0 1.000000 0.500000 2.000000 1.000000'') \<and>
   process_line ''0 0 0 1 0 1 1'' = ([], Some ''0 0.500000 0.500000 1.000000 1.000000'')"
  using process_line_Inr [OF split_odd(1) bbox_odd(1), unfolded fmt6_small]
    process_line_Inr [OF split_odd(2) bbox_odd(2), unfolded fmt6_small]
  by (simp add: split_odd)

section \<open>Blank lines\<close>

lemma strip_blank: "list_all isspace l \<Longrightarrow> strip l = []"
proof -
  assume "list_all isspace l"
  then have d: "dropWhile isspace l = []" by (induction l) auto
  show ?thesis unfolding strip_def d by simp
qed

lemma convert_loop_append: "convert_loop (as @ bs) st = convert_loop bs (convert_loop as st)"
proof (induction as arbitrary: st)
  case Nil
  show ?case by simp
next
  case (Cons a as)
  obtain c k out where st: "st = (c, k, out)" by (cases st)
  show ?case unfolding st by (simp add: Cons.IH Let_def split: prod.splits)
qed

text \<open>
  C8: a line that is empty or consists of whitespace only changes nothing in the loop
  of \<open>convert_file\<close>: the converted lines, the count of skipped lines and what is
  printed are those of the file without that line.
\<close>

theorem blank_lines_silent:
  assumes "list_all isspace l"
  shows "convert_loop (before @ l # after) st = convert_loop (before @ after) st"
proof -
  obtain c k out where st': "convert_loop before st = (c, k, out)" by (cases "convert_loop before st")
  have "convert_loop (l # after) (c, k, out) = convert_loop after (c, k, out)"
    by (simp add: strip_blank [OF assms])
  then show ?thesis by (simp add: convert_loop_append st')
qed

text \<open>A line of a space, a tab and a line feed between two other lines.\<close>

theorem blank_lines_silent_witness:
  "list_all isspace [CHR '' '', CHR 0x09, CHR 0x0A] \<and>
   convert_loop ([''0 0 1''] @ [CHR '' '', CHR 0x09, CHR 0x0A] # [''7 0 0 1 0 1 abc'']) ([], 0, []) =
   convert_loop ([''0 0 1''] @ [''7 0 0 1 0 1 abc'']) ([], 0, [])"
proof -
  have blank: "list_all isspace [CHR '' '', CHR 0x09, CHR 0x0A]"
    by (simp add: isspace_def)
  from blank blank_lines_silent [OF blank, of "[''0 0 1'']" "[''7 0 0 1 0 1 abc'']" "([], 0, [])"]
  show ?thesis by blast
qed

section \<open>A missing input file\<close>

text \<open>
  C9: when the input file does not exist, \<open>convert_file\<close> raises
  \<open>FileNotFoundError\<close> whatever the output file; in single-file mode \<open>main\<close> and the
  whole script end with exit status 1 and leave the file system as it was, so no output
  file is written; and when the name of the output file is given or can be derived,
  the error printed is that \<open>FileNotFoundError\<close>.
\<close>

theorem missing_input_file:
  assumes "entries fs (arg_input a) = None" and "\<not> arg_batch a"
  shows "(\<forall>output_file. convert_file fs (arg_input a) output_file =
            ([], fs, Some (FileNotFoundError (arg_input a)))) \<and>
         (\<exists>out. main batch_convert with_suffix fs a = (1, fs, out)) \<and>
         (\<exists>out. script batch_convert with_suffix fs a = (1, fs, out)) \<and>
         (arg_output a \<noteq> None \<or> (\<exists>name. with_suffix (arg_input a) = Inr name) \<longrightarrow>
            script batch_convert with_suffix fs a =
              (1, fs, [ErrorExit (FileNotFoundError (arg_input a))]))"
proof -
  have c: "\<forall>output_file. convert_file fs (arg_input a) output_file =
            ([], fs, Some (FileNotFoundError (arg_input a)))"
    using assms(1) by (simp add: convert_file_def)
  have m: "\<exists>out. main batch_convert with_suffix fs a = (1, fs, out)"
    using assms(2) c by (auto simp: main_def Let_def split: option.splits sum.splits)
  then have s: "\<exists>out. script batch_convert with_suffix fs a = (1, fs, out)"
    by (auto simp: script_def)
  have e: "arg_output a \<noteq> None \<or> (\<exists>name. with_suffix (arg_input a) = Inr name) \<longrightarrow>
            script batch_convert with_suffix fs a =
              (1, fs, [ErrorExit (FileNotFoundError (arg_input a))])"
    using assms(2) c by (auto simp: script_def main_def Let_def split: option.splits sum.splits)
  from c m s e show ?thesis by blast
qed

text \<open>An empty file system and the command line \<open>labels.txt\<close>.\<close>

theorem missing_input_file_witness:
  "entries \<lparr>entries = \<lambda>p. None, writable = \<lambda>p. True\<rparr>
     (arg_input \<lparr>arg_input = ''labels.txt'', arg_output = None, arg_batch = False\<rparr>) = None \<and>
   \<not> arg_batch \<lparr>arg_input = ''labels.txt'', arg_output = None, arg_batch = False\<rparr> \<and>
   convert_file \<lparr>entries = \<lambda>p. None, writable = \<lambda>p. True\<rparr> ''labels.txt'' ''labels.bbox.txt'' =
     ([], \<lparr>entries = \<lambda>p. None, writable = \<lambda>p. True\<rparr>, Some (FileNotFoundError ''labels.txt'')) \<and>
   script (\<lambda>fs d out. ([], fs, None)) (\<lambda>p. Inr ''labels.bbox.txt'')
     \<lparr>entries = \<lambda>p. None, writable = \<lambda>p. True\<rparr>
     \<lparr>arg_input = ''labels.txt'', arg_output = None, arg_batch = False\<rparr> =
     (1, \<lparr>entries = \<lambda>p. None, writable = \<lambda>p. True\<rparr>, [ErrorExit (FileNotFoundError ''labels.txt'')])"
proof -
  let ?fs = "\<lparr>entries = \<lambda>p. None, writable = \<lambda>p. True\<rparr>"
  let ?a = "\<lparr>arg_input = ''labels.txt'', arg_output = None, arg_batch = False\<rparr>"
  have 1: "entries ?fs (arg_input ?a) = None" by simp
  have 2: "\<not> arg_batch ?a" by simp
  from missing_input_file [OF 1 2, of "\<lambda>fs d out. ([], fs, None)" "\<lambda>p. Inr ''labels.bbox.txt''"]
  show ?thesis by simp
qed

end
